theory Spec2Isabelle
  imports Main "HOL-Library.Word"
begin

section \<open>Python values used by the chatbot\<close>

text \<open>
  Strings are lists of characters. The helpers below are the Python string operations the
  three source files call: \<^verbatim>\<open>str.startswith\<close>, \<^verbatim>\<open>str.endswith\<close>, the substring
  test \<^verbatim>\<open>sub in s\<close> and \<^verbatim>\<open>sep.join(parts)\<close>.
\<close>

definition startswith :: "string \<Rightarrow> string \<Rightarrow> bool" where
  "startswith s p = (take (length p) s = p)"

definition endswith :: "string \<Rightarrow> string \<Rightarrow> bool" where
  "endswith s x = (length x \<le> length s \<and> drop (length s - length x) s = x)"

fun str_in :: "string \<Rightarrow> string \<Rightarrow> bool" where
  "str_in sub [] = (sub = [])"
| "str_in sub (c # cs) = (startswith (c # cs) sub \<or> str_in sub cs)"

fun str_join :: "string \<Rightarrow> string list \<Rightarrow> string" where
  "str_join sep [] = []"
| "str_join sep [x] = x"
| "str_join sep (x # y # ys) = x @ sep @ str_join sep (y # ys)"

text \<open>
  Exceptions are values: the class and the text of \<^verbatim>\<open>str(e)\<close>. Every class below is a
  subclass of \<^verbatim>\<open>Exception\<close>; \<^verbatim>\<open>ModuleNotFoundError\<close> counts as \<^verbatim>\<open>ImportError\<close>, of which
  it is a subclass.
\<close>

datatype exn_class =
  ImportError | KeyError | TypeError | ValidationError | JSONDecodeError | OSError | RuntimeError

datatype exn = Exn (cls: exn_class) (msg: string)

text \<open>
  What \<^verbatim>\<open>json.load\<close> returns: \<^verbatim>\<open>None\<close>, a bool, an int, a float (kept as its 64-bit
  pattern), a str, a list, or a dict (its items in insertion order).
\<close>

datatype json =
  JNull | JBool bool | JInt int | JFloat "64 word" | JStr string
  | JArr "json list" | JObj "(string \<times> json) list"

text \<open>\<^verbatim>\<open>value[key]\<close> with a string key: only a dict can be subscripted by a string.\<close>

fun getitem :: "json \<Rightarrow> string \<Rightarrow> exn + json" where
  "getitem (JObj kvs) k =
     (case map_of kvs k of None \<Rightarrow> Inl (Exn KeyError k) | Some v \<Rightarrow> Inr v)"
| "getitem _ k = Inl (Exn TypeError ''indices must be integers'')"

text \<open>
  \<^verbatim>\<open>for message_data in data\<close>: a list yields its elements, a dict its keys, a str its
  characters; anything else is not iterable.
\<close>

fun py_iter :: "json \<Rightarrow> exn + json list" where
  "py_iter (JArr xs) = Inr xs"
| "py_iter (JObj kvs) = Inr (map (\<lambda>kv. JStr (fst kv)) kvs)"
| "py_iter (JStr s) = Inr (map (\<lambda>c. JStr [c]) s)"
| "py_iter _ = Inl (Exn TypeError ''object is not iterable'')"

section \<open>Messages and transcripts\<close>

text \<open>
  A chat message of the library has \<^verbatim>\<open>content: Union[str, list[Union[str, dict]]]\<close>; its
  constructor validates the argument and raises a validation error for anything else.
  The history of a session only ever holds \<^verbatim>\<open>HumanMessage\<close> and \<^verbatim>\<open>AIMessage\<close> objects.
\<close>

datatype block = BStr string | BDict "(string \<times> json) list"

datatype content = Text string | Blocks "block list"

datatype message = HumanMessage content | AIMessage content

fun msg_type :: "message \<Rightarrow> string" where
  "msg_type (HumanMessage c) = ''human''"
| "msg_type (AIMessage c) = ''ai''"

fun msg_content :: "message \<Rightarrow> content" where
  "msg_content (HumanMessage c) = c"
| "msg_content (AIMessage c) = c"

fun block_of :: "json \<Rightarrow> block option" where
  "block_of (JStr s) = Some (BStr s)"
| "block_of (JObj kvs) = Some (BDict kvs)"
| "block_of _ = None"

fun blocks_of :: "json list \<Rightarrow> block list option" where
  "blocks_of [] = Some []"
| "blocks_of (j # js) =
     (case block_of j of None \<Rightarrow> None
      | Some b \<Rightarrow> (case blocks_of js of None \<Rightarrow> None | Some bs \<Rightarrow> Some (b # bs)))"

fun validate_content :: "json \<Rightarrow> exn + content" where
  "validate_content (JStr s) = Inr (Text s)"
| "validate_content (JArr js) =
     (case blocks_of js of None \<Rightarrow> Inl (Exn ValidationError ''content'')
      | Some bs \<Rightarrow> Inr (Blocks bs))"
| "validate_content _ = Inl (Exn ValidationError ''content'')"

fun block_json :: "block \<Rightarrow> json" where
  "block_json (BStr s) = JStr s"
| "block_json (BDict kvs) = JObj kvs"

fun content_json :: "content \<Rightarrow> json" where
  "content_json (Text s) = JStr s"
| "content_json (Blocks bs) = JArr (map block_json bs)"

section \<open>utils.py: retrievers, the session store and its files\<close>

record document =
  page_content :: string
  metadata :: "(string \<times> string) list"

text \<open>
  The two retrievers the holder can contain: \<^verbatim>\<open>DummyRetriever\<close>, and the retriever over a
  vector index, whose \<^verbatim>\<open>invoke\<close> is an external service (it embeds the query, so it can
  raise).
\<close>

datatype retriever = DummyRetriever | VectorStoreRetriever "string \<Rightarrow> exn + document list"

fun invoke :: "retriever \<Rightarrow> string \<Rightarrow> exn + document list" where
  "invoke DummyRetriever query = Inr []"
| "invoke (VectorStoreRetriever search) query = search query"

text \<open>
  A file on disk, as far as the program can tell: one that cannot be opened or decoded,
  one that \<^verbatim>\<open>json.load\<close> rejects, or one that \<^verbatim>\<open>json.load\<close> parses to a value.
  \<^verbatim>\<open>json.dump\<close> followed by \<^verbatim>\<open>json.load\<close> gives the value back, so a written file is
  kept as the value written.
\<close>

datatype disk_file = Unreadable | NotJson | Json json

text \<open>
  The state of the process: the module-level dict \<^verbatim>\<open>store\<close> maps a session id to a
  reference to its history object; \<^verbatim>\<open>objs\<close> gives the messages of each history
  object and \<^verbatim>\<open>next_ref\<close> is the next unused reference; \<^verbatim>\<open>disk\<close> is the file system,
  \<^verbatim>\<open>holder\<close> the \<^verbatim>\<open>retriever\<close> attribute of the one \<^verbatim>\<open>RetrieverHolder\<close>, and \<^verbatim>\<open>out\<close> the
  lines printed so far.
\<close>

record world =
  store :: "string \<rightharpoonup> nat"
  objs :: "nat \<Rightarrow> message list"
  next_ref :: nat
  disk :: "string \<rightharpoonup> disk_file"
  holder :: retriever
  out :: "string list"

definition SESSION_HISTORY_DIR :: string where
  "SESSION_HISTORY_DIR = ''chat_history''"

text \<open>\<^verbatim>\<open>os.path.join\<close> of two components (POSIX).\<close>

definition os_path_join :: "string \<Rightarrow> string \<Rightarrow> string" where
  "os_path_join a b =
     (if startswith b ''/'' then b
      else if a = [] \<or> endswith a ''/'' then a @ b
      else a @ ''/'' @ b)"

definition history_file :: "string \<Rightarrow> string" where
  "history_file session_id = os_path_join SESSION_HISTORY_DIR (session_id @ ''.json'')"

text \<open>
  One round of the loop over the parsed file (utils.py, lines 87 to 94): the entry is
  subscripted by \<^verbatim>\<open>"type"\<close> (the \<^verbatim>\<open>elif\<close> subscripts it again, with the same result);
  only for the types \<^verbatim>\<open>"human"\<close> and \<^verbatim>\<open>"ai"\<close> is it subscripted by \<^verbatim>\<open>"content"\<close> and a
  message constructed and appended.
\<close>

definition add_entry :: "json \<Rightarrow> message list \<Rightarrow> exn + message list" where
  "add_entry message_data history =
     (case getitem message_data ''type'' of
        Inl e \<Rightarrow> Inl e
      | Inr t \<Rightarrow>
          if t = JStr ''human'' then
            (case getitem message_data ''content'' of
               Inl e \<Rightarrow> Inl e
             | Inr c \<Rightarrow>
                 (case validate_content c of
                    Inl e \<Rightarrow> Inl e
                  | Inr k \<Rightarrow> Inr (history @ [HumanMessage k])))
          else if t = JStr ''ai'' then
            (case getitem message_data ''content'' of
               Inl e \<Rightarrow> Inl e
             | Inr c \<Rightarrow>
                 (case validate_content c of
                    Inl e \<Rightarrow> Inl e
                  | Inr k \<Rightarrow> Inr (history @ [AIMessage k])))
          else Inr history)"

text \<open>
  The loop. The history object is mutated in place, so when a round raises, the messages
  appended by the earlier rounds stay in it: the result is the history reached and the
  exception, if any, that ended the loop.
\<close>

fun replay :: "json list \<Rightarrow> message list \<Rightarrow> message list \<times> exn option" where
  "replay [] history = (history, None)"
| "replay (message_data # rest) history =
     (case add_entry message_data history of
        Inl e \<Rightarrow> (history, Some e)
      | Inr history' \<Rightarrow> replay rest history')"

text \<open>
  The \<^verbatim>\<open>try\<close> block of \<^verbatim>\<open>get_session_history\<close> (lines 82 to 97) on a file that exists,
  started on a new empty history: the history it leaves, and the exception that
  \<^verbatim>\<open>except Exception: pass\<close> swallows.
\<close>

fun load_history :: "disk_file \<Rightarrow> message list \<times> exn option" where
  "load_history Unreadable = ([], Some (Exn OSError ''open''))"
| "load_history NotJson = ([], Some (Exn JSONDecodeError ''json.load''))"
| "load_history (Json data) =
     (case py_iter data of
        Inl e \<Rightarrow> ([], Some e)
      | Inr items \<Rightarrow> replay items [])"

definition get_session_history :: "string \<Rightarrow> world \<Rightarrow> nat \<times> world" where
  "get_session_history session_id w =
     (case store w session_id of
        Some r \<Rightarrow> (r, w)
      | None \<Rightarrow>
          (let history =
                 (case disk w (history_file session_id) of
                    None \<Rightarrow> []
                  | Some f \<Rightarrow> fst (load_history f));
               r = next_ref w
           in (r, w\<lparr>store := (store w)(session_id \<mapsto> r),
                     objs := (objs w)(r := history),
                     next_ref := Suc r\<rparr>)))"

text \<open>
  \<^verbatim>\<open>save_session_history\<close>. What the write does is the environment's choice:
  it succeeds; or \<^verbatim>\<open>open\<close> raises and the file is untouched; or \<^verbatim>\<open>open\<close> has truncated
  the file and the dump raises before it is complete, which leaves the file with whatever
  reached it. An exception is printed, never raised.
\<close>

datatype write_outcome = Written | OpenFails string | DumpFails string disk_file

definition serializable_history :: "message list \<Rightarrow> json" where
  "serializable_history messages =
     JArr (map (\<lambda>m. JObj [(''type'', JStr (msg_type m)),
                           (''content'', content_json (msg_content m))]) messages)"

definition save_session_history :: "write_outcome \<Rightarrow> string \<Rightarrow> world \<Rightarrow> world" where
  "save_session_history io session_id w =
     (case store w session_id of
        None \<Rightarrow> w
      | Some r \<Rightarrow>
          (case io of
             Written \<Rightarrow>
               w\<lparr>disk := (disk w)(history_file session_id \<mapsto>
                                     Json (serializable_history (objs w r)))\<rparr>
           | OpenFails e \<Rightarrow>
               w\<lparr>out := out w @ [''Error saving history to file: '' @ e]\<rparr>
           | DumpFails e left \<Rightarrow>
               w\<lparr>disk := (disk w)(history_file session_id \<mapsto> left),
                 out := out w @ [''Error saving history to file: '' @ e]\<rparr>))"

text \<open>The transcript a session id stands for: the messages of its history object.\<close>

definition transcript :: "world \<Rightarrow> string \<Rightarrow> message list" where
  "transcript w session_id =
     (let (r, w') = get_session_history session_id w in objs w' r)"

section \<open>rag_core.py: ingestion and the chain\<close>

definition py_print :: "string \<Rightarrow> world \<Rightarrow> world" where
  "py_print line w = w\<lparr>out := out w @ [line]\<rparr>"

definition digit_char :: "nat \<Rightarrow> char" where
  "digit_char d = char_of (48 + d)"

fun show_nat :: "nat \<Rightarrow> string" where
  "show_nat n = (if n < 10 then [digit_char n] else show_nat (n div 10) @ [digit_char (n mod 10)])"

declare show_nat.simps [simp del]

text \<open>
  The external services, which the source calls and does not define. For a loader class
  and a path, \<^verbatim>\<open>load_and_split\<close> is the loader's construction, \<^verbatim>\<open>loader.load()\<close> and
  \<^verbatim>\<open>split_documents\<close>; \<^verbatim>\<open>build_index\<close> is the embedding of the chunks into a FAISS
  index and \<^verbatim>\<open>as_retriever()\<close>; \<^verbatim>\<open>llm\<close> is \<^verbatim>\<open>llm | StrOutputParser()\<close> on the formatted
  prompt; \<^verbatim>\<open>normpath\<close> is \<^verbatim>\<open>os.path.normpath\<close>; \<^verbatim>\<open>write_io\<close> is what the next write of a
  session file does. Each of the first three either raises or returns.
\<close>

datatype loader = PyPDFLoader | TextLoader | UnstructuredWordDocumentLoader | CSVLoader

datatype prompt_message = SystemPrompt string | HistoryMessage message | HumanPrompt string

record env =
  load_and_split :: "loader \<Rightarrow> string \<Rightarrow> exn + document list"
  build_index :: "document list \<Rightarrow> exn + (string \<Rightarrow> exn + document list)"
  llm :: "prompt_message list \<Rightarrow> exn + string"
  normpath :: "string \<Rightarrow> string"
  write_io :: write_outcome

text \<open>The \<^verbatim>\<open>if\<close>/\<^verbatim>\<open>elif\<close> chain of lines 48 to 60, in its order.\<close>

definition select_loader :: "string \<Rightarrow> loader option" where
  "select_loader file_path =
     (if endswith file_path ''.pdf'' then Some PyPDFLoader
      else if endswith file_path ''.txt'' then Some TextLoader
      else if endswith file_path ''.docx'' then Some UnstructuredWordDocumentLoader
      else if endswith file_path ''.csv'' then Some CSVLoader
      else None)"

definition unsupported_line :: string where
  "unsupported_line = ''Error: Unsupported file format. Please use .txt, .pdf, .docx, or .csv''"

definition dependency_line :: string where
  "dependency_line = ''\<newline>--- Dependency Missing Error ---''"

definition quota_line :: string where
  "quota_line = ''\<newline>--- RAG MODE FAILED DUE TO QUOTA ---''"

definition processing_line :: "string \<Rightarrow> string" where
  "processing_line e = ''An error occurred during document processing: '' @ e"

text \<open>The handler \<^verbatim>\<open>except ImportError\<close> (lines 77 to 95).\<close>

definition on_import_error :: "exn \<Rightarrow> string \<Rightarrow> world \<Rightarrow> world" where
  "on_import_error e file_path w =
     (let w1 = py_print dependency_line w in
      if str_in ''PyPDFLoader'' (msg e) \<or> endswith file_path ''.pdf'' \<or> endswith file_path ''.csv''
      then py_print ''Please run: pip install pypdf''
             (py_print (''To process PDF or CSV files, you likely need to install ''
                          @ [CHR 0x27] @ ''pypdf'' @ [CHR 0x27] @ ''.'') w1)
      else if str_in ''UnstructuredWordDocumentLoader'' (msg e) \<or> endswith file_path ''.docx''
      then py_print ''Please run: pip install unstructured[docx]''
             (py_print (''To process DOCX files, you need to install ''
                          @ [CHR 0x27] @ ''unstructured'' @ [CHR 0x27] @ '' and its dependencies.'') w1)
      else py_print (''An ImportError occurred: '' @ msg e
                       @ ''. Check if you have all required document parser libraries installed.'') w1)"

text \<open>The handler \<^verbatim>\<open>except Exception\<close> (lines 97 to 108).\<close>

definition on_exception :: "exn \<Rightarrow> world \<Rightarrow> world" where
  "on_exception e w =
     (let w1 = py_print (processing_line (msg e)) w in
      if str_in ''Quota exceeded'' (msg e)
      then py_print ''Please wait for your quota to reset or check your API usage/plan.''
             (py_print ''This often happens when processing many chunks (like a large CSV/PDF).''
               (py_print ''NOTE: The document failed to load because the Gemini API quota for embeddings was exceeded.''
                 (py_print quota_line w1)))
      else w1)"

definition on_error :: "exn \<Rightarrow> string \<Rightarrow> world \<Rightarrow> world" where
  "on_error e file_path w =
     (if cls e = ImportError then on_import_error e file_path w else on_exception e w)"

definition load_and_process_document :: "env \<Rightarrow> string \<Rightarrow> world \<Rightarrow> retriever option \<times> world" where
  "load_and_process_document ev file_path w =
     (let w0 = py_print (''Loading document from: '' @ file_path @ ''...'') w in
      case select_loader file_path of
        None \<Rightarrow> (None, py_print unsupported_line w0)
      | Some loader \<Rightarrow>
          (case load_and_split ev loader file_path of
             Inl e \<Rightarrow> (None, on_error e file_path w0)
           | Inr splits \<Rightarrow>
               (let w1 = py_print (''Document split into '' @ show_nat (length splits) @ '' chunks.'') w0 in
                case build_index ev splits of
                  Inl e \<Rightarrow> (None, on_error e file_path w1)
                | Inr search \<Rightarrow> (Some (VectorStoreRetriever search), w1))))"

definition system_instruction :: string where
  "system_instruction =
     ''You are a helpful assistant. Answer the user'' @ [CHR 0x27]
     @ ''s question using the provided context if it is relevant. ''
     @ ''If the context is not sufficient or the question is general, use your general knowledge to answer.''
     @ ''\<newline>\<newline>Context:\<newline>''"

definition format_docs :: "document list \<Rightarrow> string" where
  "format_docs docs = str_join ''\<newline>\<newline>'' (map page_content docs)"

text \<open>\<^verbatim>\<open>dynamic_retrieval\<close> reads the holder at the time of the call.\<close>

definition dynamic_retrieval :: "world \<Rightarrow> string \<Rightarrow> exn + string" where
  "dynamic_retrieval w question =
     (case invoke (holder w) question of
        Inl e \<Rightarrow> Inl e
      | Inr docs \<Rightarrow> Inr (format_docs docs))"

text \<open>
  The prompt template filled in: the system message with the context after the fixed
  instruction, the messages of the history, and the question as the human message.
\<close>

definition prompt :: "string \<Rightarrow> message list \<Rightarrow> string \<Rightarrow> prompt_message list" where
  "prompt context history question =
     SystemPrompt (system_instruction @ context) # map HistoryMessage history @ [HumanPrompt question]"

text \<open>\<^verbatim>\<open>contextual_chain | prompt\<close>: what the chain hands to the language model.\<close>

definition contextual_prompt :: "world \<Rightarrow> message list \<Rightarrow> string \<Rightarrow> exn + prompt_message list" where
  "contextual_prompt w history question =
     (case dynamic_retrieval w question of
        Inl e \<Rightarrow> Inl e
      | Inr context \<Rightarrow> Inr (prompt context history question))"

definition full_rag_chain :: "env \<Rightarrow> world \<Rightarrow> message list \<Rightarrow> string \<Rightarrow> exn + string" where
  "full_rag_chain ev w history question =
     (case contextual_prompt w history question of
        Inl e \<Rightarrow> Inl e
      | Inr p \<Rightarrow> llm ev p)"

text \<open>
  \<^verbatim>\<open>RunnableWithMessageHistory(full_rag_chain, get_session_history, input_messages_key =
  "question", history_messages_key = "history")\<close>, invoked with a session id. The wrapper
  is library code; its documented behaviour is: it calls the history function for the
  session id, passes a copy of the messages of the returned object as the history, runs the
  wrapped chain, and, only when the chain has returned, appends to the same object a
  human message with the question and an ai message with the answer. When the chain
  raises, the exception propagates and nothing is appended.
\<close>

definition conversational_rag_chain :: "env \<Rightarrow> string \<Rightarrow> string \<Rightarrow> world \<Rightarrow> (exn + string) \<times> world" where
  "conversational_rag_chain ev session_id question w =
     (let (r, w1) = get_session_history session_id w;
          history = objs w1 r
      in case full_rag_chain ev w1 history question of
           Inl e \<Rightarrow> (Inl e, w1)
         | Inr answer \<Rightarrow>
             (Inr answer,
              w1\<lparr>objs := (objs w1)(r := objs w1 r @ [HumanMessage (Text question), AIMessage (Text answer)])\<rparr>))"

section \<open>main.py: one round of the command loop\<close>

definition lower_char :: "char \<Rightarrow> char" where
  "lower_char c =
     (let n = (of_char c :: nat) in
      if (65 \<le> n \<and> n \<le> 90) \<or> (192 \<le> n \<and> n \<le> 222 \<and> n \<noteq> 215) then char_of (n + 32) else c)"

definition py_lower :: "string \<Rightarrow> string" where
  "py_lower s = map lower_char s"

definition py_isspace :: "char \<Rightarrow> bool" where
  "py_isspace c = ((of_char c :: nat) \<in> set [9, 10, 11, 12, 13, 28, 29, 30, 31, 32, 133, 160])"

definition py_strip :: "string \<Rightarrow> string" where
  "py_strip s = rev (dropWhile py_isspace (rev (dropWhile py_isspace s)))"

text \<open>\<^verbatim>\<open>s.split(" ", 1)[-1]\<close>: what follows the first space, or all of \<^verbatim>\<open>s\<close> if it has none.\<close>

definition split_last :: "string \<Rightarrow> string" where
  "split_last s =
     (case dropWhile (\<lambda>c. c \<noteq> CHR '' '') s of [] \<Rightarrow> s | sp # rest \<Rightarrow> rest)"

definition session_id_v1 :: string where
  "session_id_v1 = ''user_session_id_v1''"

definition dashes :: string where
  "dashes = replicate 60 (CHR ''-'')"

datatype control = Continue | Break

text \<open>The \<^verbatim>\<open>/load\<close> branch (lines 62 to 87), for the path already normalised.\<close>

definition load_command :: "env \<Rightarrow> string \<Rightarrow> world \<Rightarrow> world" where
  "load_command ev new_doc_path w =
     (if disk w new_doc_path = None
      then py_print (''File not found at: '' @ new_doc_path @ ''. Current RAG status remains unchanged.'') w
      else
        (case load_and_process_document ev new_doc_path w of
           (Some new_retriever, w1) \<Rightarrow>
             py_print dashes
               (py_print (''\<newline>--- RAG MODE ACTIVATED ---\<newline>Successfully loaded '' @ new_doc_path
                            @ ''. You can now ask questions about this document.'')
                  (w1\<lparr>holder := new_retriever\<rparr>))
         | (None, w1) \<Rightarrow>
             py_print dashes
               ((py_print (''\<newline>--- RAG MODE FAILED ---\<newline>Failed to load document at '' @ new_doc_path
                             @ ''. Reverting to general chat mode.'') w1)
                  \<lparr>holder := DummyRetriever\<rparr>)))"

text \<open>The chat branch (lines 89 to 104): the history is saved only after the chain returned.\<close>

definition chat_turn :: "env \<Rightarrow> string \<Rightarrow> world \<Rightarrow> world" where
  "chat_turn ev user_input w =
     (case conversational_rag_chain ev session_id_v1 user_input w of
        (Inr response, w1) \<Rightarrow>
          py_print dashes
            (save_session_history (write_io ev) session_id_v1 (py_print (''Gemini: '' @ response) w1))
      | (Inl e, w1) \<Rightarrow>
          py_print ''Please try your question again or check your API key/network connection.''
            (py_print (''An error occurred during chat: '' @ msg e) w1))"

definition main_step :: "env \<Rightarrow> string \<Rightarrow> world \<Rightarrow> control \<times> world" where
  "main_step ev user_input w =
     (if py_lower user_input \<in> set [''quit'', ''exit'']
      then (Break, py_print ''Exiting...'' (save_session_history (write_io ev) session_id_v1 w))
      else if startswith (py_lower user_input) ''/load ''
      then (Continue, load_command ev (normpath ev (py_strip (split_last user_input))) w)
      else (Continue, chat_turn ev user_input w))"

section \<open>Vocabulary of the properties\<close>

text \<open>
  Reading a persisted entry the way the specification describes it: \<^verbatim>\<open>field e k\<close> is the
  value of the field \<^verbatim>\<open>k\<close> when \<^verbatim>\<open>e\<close> is an object that has it. An entry is a chat
  entry when its type is \<^verbatim>\<open>"human"\<close> or \<^verbatim>\<open>"ai"\<close>. Message content is a string, or a list
  of strings and objects. An entry is well formed when it is an object with a type and,
  if it is a chat entry, has a content field holding message content.
\<close>

definition field :: "json \<Rightarrow> string \<Rightarrow> json option" where
  "field e k = (case e of JObj kvs \<Rightarrow> map_of kvs k | _ \<Rightarrow> None)"

fun is_block :: "json \<Rightarrow> bool" where
  "is_block (JStr s) = True"
| "is_block (JObj kvs) = True"
| "is_block _ = False"

fun is_message_content :: "json \<Rightarrow> bool" where
  "is_message_content (JStr s) = True"
| "is_message_content (JArr js) = list_all is_block js"
| "is_message_content _ = False"

definition is_chat_entry :: "json \<Rightarrow> bool" where
  "is_chat_entry e =
     (field e ''type'' = Some (JStr ''human'') \<or> field e ''type'' = Some (JStr ''ai''))"

definition well_formed_entry :: "json \<Rightarrow> bool" where
  "well_formed_entry e =
     (field e ''type'' \<noteq> None \<and>
      (is_chat_entry e \<longrightarrow>
         (case field e ''content'' of None \<Rightarrow> False | Some c \<Rightarrow> is_message_content c)))"

text \<open>The role and the content of a message, and of an entry, as JSON values.\<close>

definition message_fields :: "message \<Rightarrow> json option \<times> json option" where
  "message_fields m = (Some (JStr (msg_type m)), Some (content_json (msg_content m)))"

definition entry_fields :: "json \<Rightarrow> json option \<times> json option" where
  "entry_fields e = (field e ''type'', field e ''content'')"

text \<open>Sequences of the two operations of the session store.\<close>

datatype store_op = History string | Save write_outcome string

fun apply_op :: "store_op \<Rightarrow> world \<Rightarrow> world" where
  "apply_op (History session_id) w = snd (get_session_history session_id w)"
| "apply_op (Save io session_id) w = save_session_history io session_id w"

fun run_ops :: "store_op list \<Rightarrow> world \<Rightarrow> world" where
  "run_ops [] w = w"
| "run_ops (op # ops) w = run_ops ops (apply_op op w)"

text \<open>Every reference held by the store has been handed out: it is below \<^verbatim>\<open>next_ref\<close>.\<close>

definition allocated :: "world \<Rightarrow> bool" where
  "allocated w = (\<forall>session_id r. store w session_id = Some r \<longrightarrow> r < next_ref w)"

text \<open>
  The four diagnostics \<^verbatim>\<open>load_and_process_document\<close> can print when it fails, named
  after their marker lines: the unsupported-format error, the dependency-missing
  report, the quota report, and the bare processing-error line.
\<close>

datatype report = UnsupportedReport | DependencyReport | QuotaReport | ProcessingReport

text \<open>
  What a reader of the console can tell from the lines an ingestion printed: which of
  the four marker lines is among them.
\<close>

definition report_of :: "string list \<Rightarrow> report option" where
  "report_of lines =
     (if unsupported_line \<in> set lines then Some UnsupportedReport
      else if dependency_line \<in> set lines then Some DependencyReport
      else if quota_line \<in> set lines then Some QuotaReport
      else if list_ex (\<lambda>l. startswith l (processing_line [])) lines then Some ProcessingReport
      else None)"

text \<open>
  The exception the services raise for a path, if any: the one from the loading step
  or, when that step returns, the one from the indexing step.
\<close>

definition raised :: "env \<Rightarrow> string \<Rightarrow> exn option" where
  "raised ev p =
     (case select_loader p of
        None \<Rightarrow> None
      | Some l \<Rightarrow>
          (case load_and_split ev l p of
             Inl e \<Rightarrow> Some e
           | Inr splits \<Rightarrow>
               (case build_index ev splits of Inl e \<Rightarrow> Some e | Inr search \<Rightarrow> None)))"

text \<open>
  The extension of a path, as \<^verbatim>\<open>os.path.splitext\<close> gives it: within the last component
  of the path, and after its leading dots, what starts at the last dot; empty when there
  is no such dot. So \<^verbatim>\<open>report.xlsx\<close> has the extension \<^verbatim>\<open>.xlsx\<close>, and \<^verbatim>\<open>docs/.pdf\<close> has
  none.
\<close>

definition basename :: "string \<Rightarrow> string" where
  "basename p = rev (takeWhile (\<lambda>c. c \<noteq> CHR ''/'') (rev p))"

definition extension :: "string \<Rightarrow> string" where
  "extension p =
     (let stem = dropWhile (\<lambda>c. c = CHR ''.'') (basename p) in
      if CHR ''.'' \<in> set stem
      then CHR ''.'' # rev (takeWhile (\<lambda>c. c \<noteq> CHR ''.'') (rev stem))
      else [])"

definition printed :: "world \<Rightarrow> world \<Rightarrow> string list" where
  "printed w w' = drop (length (out w)) (out w')"

definition neutral_line :: "string \<Rightarrow> bool" where
  "neutral_line l = (l \<noteq> unsupported_line \<and> l \<noteq> dependency_line \<and> l \<noteq> quota_line
                     \<and> \<not> startswith l (processing_line []))"

text \<open>
  The context as the specification words it: the texts in their order, a blank line
  between one and the next.
\<close>

fun blank_line_joined :: "string list \<Rightarrow> string" where
  "blank_line_joined [] = []"
| "blank_line_joined (t # ts) = t @ concat (map (\<lambda>u. ''\<newline>\<newline>'' @ u) ts)"

section \<open>Worlds and services used as concrete inputs\<close>

definition world0 :: world where
  "world0 = \<lparr>store = Map.empty, objs = (\<lambda>r. []), next_ref = 0, disk = Map.empty,
             holder = DummyRetriever, out = []\<rparr>"

definition entry :: "string \<Rightarrow> json \<Rightarrow> json" where
  "entry t c = JObj [(''type'', JStr t), (''content'', c)]"

definition greeting :: "message list" where
  "greeting = [HumanMessage (Text ''hi''), AIMessage (Text ''hello'')]"

text \<open>A process that holds the session of \<^verbatim>\<open>main\<close> with two messages and has written nothing yet.\<close>

definition world1 :: world where
  "world1 = world0\<lparr>store := [session_id_v1 \<mapsto> 0], objs := (\<lambda>r. [])(0 := greeting), next_ref := 1\<rparr>"

definition doc1 :: document where
  "doc1 = \<lparr>page_content = ''alpha'', metadata = []\<rparr>"

definition doc2 :: document where
  "doc2 = \<lparr>page_content = ''beta'', metadata = []\<rparr>"

text \<open>Services that all succeed, and the same with a language model that is down.\<close>

definition ev_ok :: env where
  "ev_ok = \<lparr>load_and_split = (\<lambda>l p. Inr [doc1, doc2]),
            build_index = (\<lambda>ds. Inr (\<lambda>q. Inr ds)),
            llm = (\<lambda>p. Inr ''fine''),
            normpath = (\<lambda>p. p),
            write_io = Written\<rparr>"

definition ev_down :: env where
  "ev_down = ev_ok\<lparr>llm := (\<lambda>p. Inl (Exn RuntimeError ''503''))\<rparr>"

text \<open>A session file whose second entry lacks its content, and a process that has it on disk.\<close>

definition broken_entries :: "json list" where
  "broken_entries = [entry ''human'' (JStr ''hi''), JObj [(''type'', JStr ''human'')],
                     entry ''ai'' (JStr ''hello'')]"

definition broken_world :: world where
  "broken_world = world0\<lparr>disk := [history_file ''s'' \<mapsto> Json (JArr broken_entries)]\<rparr>"

definition unreadable_world :: world where
  "unreadable_world = world0\<lparr>disk := [history_file ''s'' \<mapsto> Unreadable]\<rparr>"

text \<open>A session file of two objects with both fields, the first with the content \<^verbatim>\<open>null\<close>.\<close>

definition null_entries :: "json list" where
  "null_entries = [entry ''human'' JNull, entry ''ai'' (JStr ''x'')]"

definition null_world :: world where
  "null_world = world0\<lparr>disk := [history_file ''s'' \<mapsto> Json (JArr null_entries)]\<rparr>"

text \<open>A session file with a system entry between two chat entries.\<close>

definition mixed_entries :: "json list" where
  "mixed_entries = [entry ''human'' (JStr ''hi''), entry ''system'' JNull, entry ''ai'' (JStr ''x'')]"

definition mixed_world :: world where
  "mixed_world = world0\<lparr>disk := [history_file ''s'' \<mapsto> Json (JArr mixed_entries)]\<rparr>"

text \<open>
  A process in which a document has been loaded: the holder has a retriever over two
  chunks, and the disk has one file, which no loader is selected for.
\<close>

definition grounded_world :: world where
  "grounded_world = world1\<lparr>disk := [''report.xlsx'' \<mapsto> NotJson],
                            holder := VectorStoreRetriever (\<lambda>q. Inr [doc1, doc2])\<rparr>"

text \<open>Services whose embedding step is rejected for quota.\<close>

definition ev_quota :: env where
  "ev_quota = ev_ok\<lparr>build_index := (\<lambda>ds. Inl (Exn RuntimeError ''429 Quota exceeded for embeddings''))\<rparr>"

text \<open>
  Services whose loader cannot be imported; whose index library cannot be imported;
  whose loader cannot read the file; and whose embedding step is rejected for quota in
  other words.
\<close>

definition ev_noparser :: env where
  "ev_noparser = ev_ok\<lparr>load_and_split := (\<lambda>l p. Inl (Exn ImportError ''No module named pypdf''))\<rparr>"

definition ev_noindex :: env where
  "ev_noindex = ev_ok\<lparr>build_index := (\<lambda>ds. Inl (Exn ImportError ''No module named faiss''))\<rparr>"

definition ev_badfile :: env where
  "ev_badfile = ev_ok\<lparr>load_and_split := (\<lambda>l p. Inl (Exn RuntimeError ''cannot read the file''))\<rparr>"

definition ev_limit :: env where
  "ev_limit = ev_ok\<lparr>build_index := (\<lambda>ds. Inl (Exn RuntimeError ''429 You exceeded your current quota''))\<rparr>"

section \<open>The session store: saving and loading\<close>

lemma blocks_of_block_json: "blocks_of (map block_json bs) = Some bs"
proof (induction bs)
  case Nil
  show ?case by simp
next
  case (Cons b bs)
  then show ?case by (cases b) simp_all
qed

lemma validate_content_json: "validate_content (content_json c) = Inr c"
  by (cases c) (simp_all add: blocks_of_block_json)

lemma add_entry_serialized:
  "add_entry (JObj [(''type'', JStr (msg_type m)), (''content'', content_json (msg_content m))]) h
     = Inr (h @ [m])"
  by (cases m) (simp_all add: add_entry_def validate_content_json)

lemma replay_serialized:
  "replay (map (\<lambda>m. JObj [(''type'', JStr (msg_type m)), (''content'', content_json (msg_content m))]) ms) h
     = (h @ ms, None)"
proof (induction ms arbitrary: h)
  case Nil
  show ?case by simp
next
  case (Cons m ms)
  show ?case by (simp add: add_entry_serialized Cons.IH)
qed

lemma load_history_serialized: "load_history (Json (serializable_history ms)) = (ms, None)"
  by (simp add: serializable_history_def replay_serialized)

lemma transcript_cached: "store w sid = Some r \<Longrightarrow> transcript w sid = objs w r"
  by (simp add: transcript_def get_session_history_def)

lemma transcript_first:
  "store w sid = None \<Longrightarrow>
   transcript w sid = (case disk w (history_file sid) of None \<Rightarrow> [] | Some f \<Rightarrow> fst (load_history f))"
  by (simp add: transcript_def get_session_history_def Let_def)

text \<open>
  Claim C3. When the store holds a transcript for a session id and \<^verbatim>\<open>save_session_history\<close>
  writes it, then in any process whose store is empty and whose disk is the one the save
  left, \<^verbatim>\<open>get_session_history\<close> for that id yields the same messages in the same order,
  each with its role and its content.
\<close>

theorem save_then_history_roundtrip:
  assumes "store w session_id = Some r"
    and "store fresh = Map.empty"
    and "disk fresh = disk (save_session_history Written session_id w)"
  shows "transcript fresh session_id = objs w r"
  using assms
  by (simp add: transcript_first save_session_history_def load_history_serialized
           del: load_history.simps)

theorem save_then_history_roundtrip_witness:
  "store world1 session_id_v1 = Some 0
   \<and> store (world0\<lparr>disk := disk (save_session_history Written session_id_v1 world1)\<rparr>) = Map.empty
   \<and> transcript (world0\<lparr>disk := disk (save_session_history Written session_id_v1 world1)\<rparr>) session_id_v1
       = [HumanMessage (Text ''hi''), AIMessage (Text ''hello'')]"
  using save_then_history_roundtrip
          [of world1 session_id_v1 0
              "world0\<lparr>disk := disk (save_session_history Written session_id_v1 world1)\<rparr>"]
  by (simp add: world1_def world0_def greeting_def)

section \<open>The session store: entries are created once\<close>

lemma get_session_history_result:
  assumes "get_session_history sid w = (r, w1)"
  shows "store w1 sid = Some r" and "objs w1 r = transcript w sid"
    and "disk w1 = disk w" and "holder w1 = holder w" and "out w1 = out w"
  using assms
  by (auto simp: get_session_history_def transcript_def Let_def split: option.splits)

lemma get_session_history_hit:
  "store w sid = Some r \<Longrightarrow> get_session_history sid w = (r, w)"
  by (simp add: get_session_history_def)

lemma get_session_history_miss:
  assumes "store w sid = None" and "get_session_history sid w = (r, w1)"
  shows "r = next_ref w" and "store w1 = (store w)(sid \<mapsto> r)" and "next_ref w1 = Suc r"
  using assms by (auto simp: get_session_history_def Let_def)

lemma save_session_history_frame:
  "store (save_session_history io sid w) = store w"
  "objs (save_session_history io sid w) = objs w"
  "next_ref (save_session_history io sid w) = next_ref w"
  "holder (save_session_history io sid w) = holder w"
  by (simp_all add: save_session_history_def split: option.splits write_outcome.splits)

lemma py_print_frame:
  "store (py_print l w) = store w" "objs (py_print l w) = objs w"
  "next_ref (py_print l w) = next_ref w" "disk (py_print l w) = disk w"
  "holder (py_print l w) = holder w" "out (py_print l w) = out w @ [l]"
  by (simp_all add: py_print_def)

lemma apply_op_keeps:
  assumes "allocated w" and "store w sid = Some r"
  shows "allocated (apply_op op w) \<and> store (apply_op op w) sid = Some r
         \<and> objs (apply_op op w) r = objs w r"
proof (cases op)
  case (History s)
  show ?thesis
  proof (cases "store w s")
    case None
    with assms History show ?thesis
      by (auto simp: allocated_def get_session_history_def Let_def less_Suc_eq)
  next
    case (Some r')
    with assms History show ?thesis by (simp add: get_session_history_hit)
  qed
next
  case (Save io s)
  with assms show ?thesis by (simp add: allocated_def save_session_history_frame)
qed

lemma run_ops_keeps:
  "allocated w \<Longrightarrow> store w sid = Some r \<Longrightarrow>
   allocated (run_ops ops w) \<and> store (run_ops ops w) sid = Some r
   \<and> objs (run_ops ops w) r = objs w r"
proof (induction ops arbitrary: w)
  case Nil
  then show ?case by simp
next
  case (Cons op ops)
  from apply_op_keeps [OF Cons.prems, of op]
  have a: "allocated (apply_op op w)" and s: "store (apply_op op w) sid = Some r"
    and o: "objs (apply_op op w) r = objs w r" by simp_all
  from Cons.IH [OF a s] o show ?case by simp
qed

lemma allocated_first:
  assumes "allocated w" and "get_session_history sid w = (r, w1)"
  shows "allocated w1"
  using assms
  by (auto simp: allocated_def get_session_history_def Let_def less_Suc_eq
           split: option.splits if_splits)

text \<open>
  Claim C8. Take a store whose references are all allocated, let \<^verbatim>\<open>get_session_history\<close>
  be called for a session id, and let any sequence of history and save operations follow.
  If the id had no entry, the first call created it, with a new reference. After the
  sequence, a further call for the id returns the reference the first call returned and
  leaves the whole state as it is, whatever the disk holds (the file is not read again);
  the object still has the messages it had; and a save leaves the store as it is.
\<close>

theorem store_entry_created_once:
  assumes "allocated w" and "get_session_history sid w = (r, w1)" and "w2 = run_ops ops w1"
  shows "(store w sid = None \<longrightarrow> r = next_ref w \<and> store w1 = (store w)(sid \<mapsto> r))
       \<and> get_session_history sid w2 = (r, w2)
       \<and> objs w2 r = objs w1 r
       \<and> (\<forall>d. get_session_history sid (w2\<lparr>disk := d\<rparr>) = (r, w2\<lparr>disk := d\<rparr>))
       \<and> store (save_session_history io sid' w2) = store w2
       \<and> allocated w2"
proof -
  have a1: "allocated w1" using assms(1,2) by (rule allocated_first)
  have s1: "store w1 sid = Some r" using assms(2) by (rule get_session_history_result)
  from run_ops_keeps [OF a1 s1, of ops] assms(3)
  have k: "allocated w2" "store w2 sid = Some r" "objs w2 r = objs w1 r" by simp_all
  have first: "store w sid = None \<longrightarrow> r = next_ref w \<and> store w1 = (store w)(sid \<mapsto> r)"
    using get_session_history_miss [OF _ assms(2)] by blast
  have again: "get_session_history sid w2 = (r, w2)"
    using k(2) by (rule get_session_history_hit)
  have nodisk: "\<forall>d. get_session_history sid (w2\<lparr>disk := d\<rparr>) = (r, w2\<lparr>disk := d\<rparr>)"
    using k(2) by (simp add: get_session_history_hit)
  show ?thesis using first again k nodisk by (simp add: save_session_history_frame)
qed

theorem store_entry_created_once_witness:
  "allocated world1
   \<and> store world1 ''s'' = None
   \<and> fst (get_session_history ''s'' world1) = 1
   \<and> fst (get_session_history ''s''
            (run_ops [Save Written ''s'', History ''t'', History ''s'']
               (snd (get_session_history ''s'' world1)))) = 1"
proof -
  have a: "allocated world1"
    by (auto simp: allocated_def world1_def world0_def split: if_splits)
  have g: "get_session_history ''s'' world1
             = (fst (get_session_history ''s'' world1), snd (get_session_history ''s'' world1))"
    by simp
  have n: "store world1 ''s'' = None"
    by (simp add: world1_def world0_def session_id_v1_def)
  have r: "fst (get_session_history ''s'' world1) = 1"
    using n by (simp add: get_session_history_def Let_def world1_def world0_def)
  from store_entry_created_once [OF a g refl, of "[Save Written ''s'', History ''t'', History ''s'']"]
  have "fst (get_session_history ''s''
            (run_ops [Save Written ''s'', History ''t'', History ''s'']
               (snd (get_session_history ''s'' world1)))) = fst (get_session_history ''s'' world1)"
    by simp
  then show ?thesis using a n r by simp
qed

section \<open>A turn of the conversation\<close>

text \<open>
  Claim C1. When the chain returns an answer for a session id and a question, the
  transcript of the session afterwards is the transcript before followed by the human
  message with the question and the ai message with the answer; the same holds after the
  whole chat branch of \<^verbatim>\<open>main\<close>, which then saves the session.
\<close>

theorem respond_appends_turn:
  assumes "conversational_rag_chain ev sid q w = (Inr answer, w')"
  shows "transcript w' sid = transcript w sid @ [HumanMessage (Text q), AIMessage (Text answer)]
       \<and> (sid = session_id_v1 \<longrightarrow>
            transcript (chat_turn ev q w) sid
              = transcript w sid @ [HumanMessage (Text q), AIMessage (Text answer)])"
proof -
  obtain r w1 where g: "get_session_history sid w = (r, w1)" by (cases "get_session_history sid w")
  note f = get_session_history_result [OF g]
  from assms g have chain: "full_rag_chain ev w1 (objs w1 r) q = Inr answer"
    and w': "w' = w1\<lparr>objs := (objs w1)(r := objs w1 r @ [HumanMessage (Text q), AIMessage (Text answer)])\<rparr>"
    by (auto simp: conversational_rag_chain_def Let_def split: sum.splits)
  have st: "store w' sid = Some r" using w' f(1) by simp
  have t: "transcript w' sid = transcript w sid @ [HumanMessage (Text q), AIMessage (Text answer)]"
    using transcript_cached [OF st] w' f(2) by simp
  have "transcript (chat_turn ev q w) session_id_v1 = transcript w' session_id_v1" if "sid = session_id_v1"
  proof -
    let ?w = "chat_turn ev q w"
    have c: "?w = py_print dashes
            (save_session_history (write_io ev) session_id_v1 (py_print (''Gemini: '' @ answer) w'))"
      using assms that by (simp add: chat_turn_def)
    have "store ?w session_id_v1 = Some r" and "objs ?w = objs w'"
      using st that by (simp_all add: c py_print_frame save_session_history_frame)
    then show ?thesis using transcript_cached st that by simp
  qed
  with t show ?thesis by auto
qed

theorem respond_appends_turn_witness:
  "fst (conversational_rag_chain ev_ok session_id_v1 ''why'' world1) = Inr ''fine''
   \<and> transcript (chat_turn ev_ok ''why'' world1) session_id_v1
       = [HumanMessage (Text ''hi''), AIMessage (Text ''hello''),
          HumanMessage (Text ''why''), AIMessage (Text ''fine'')]"
proof -
  have c: "conversational_rag_chain ev_ok session_id_v1 ''why'' world1
             = (Inr ''fine'', snd (conversational_rag_chain ev_ok session_id_v1 ''why'' world1))"
    by (simp add: conversational_rag_chain_def get_session_history_def full_rag_chain_def
          contextual_prompt_def dynamic_retrieval_def world1_def world0_def ev_ok_def)
  have t: "transcript world1 session_id_v1 = greeting"
    by (simp add: transcript_def get_session_history_def world1_def world0_def)
  from respond_appends_turn [OF c] t show ?thesis
    by (simp add: c [THEN arg_cong, of fst] greeting_def)
qed

text \<open>
  Claim C2. When the chain raises for a session id and a question, the transcript of the
  session is the one before the call and the disk is the one before the call; if the
  session was already in the store the whole state is unchanged; asking the same question
  again with the same services fails in the same way and changes nothing. The chat branch
  of \<^verbatim>\<open>main\<close> does not save after a failure, so it too leaves transcript and disk as they
  were.
\<close>

theorem failed_turn_keeps_history:
  assumes "conversational_rag_chain ev sid q w = (Inl e, w')"
  shows "transcript w' sid = transcript w sid
       \<and> disk w' = disk w
       \<and> (store w sid \<noteq> None \<longrightarrow> w' = w)
       \<and> conversational_rag_chain ev sid q w' = (Inl e, w')
       \<and> (sid = session_id_v1 \<longrightarrow>
            transcript (chat_turn ev q w) sid = transcript w sid
            \<and> disk (chat_turn ev q w) = disk w)"
proof -
  obtain r w1 where g: "get_session_history sid w = (r, w1)" by (cases "get_session_history sid w")
  note f = get_session_history_result [OF g]
  from assms g have chain: "full_rag_chain ev w1 (objs w1 r) q = Inl e" and w': "w' = w1"
    by (auto simp: conversational_rag_chain_def Let_def split: sum.splits)
  have st: "store w' sid = Some r" using w' f(1) by simp
  have t: "transcript w' sid = transcript w sid"
    using transcript_cached [OF st] w' f(2) by simp
  have d: "disk w' = disk w" using w' f(3) by simp
  have same: "store w sid \<noteq> None \<longrightarrow> w' = w"
    using g w' by (auto simp: get_session_history_hit)
  have again: "conversational_rag_chain ev sid q w' = (Inl e, w')"
    using chain w' st by (simp add: conversational_rag_chain_def get_session_history_hit)
  have "transcript (chat_turn ev q w) session_id_v1 = transcript w' session_id_v1
        \<and> disk (chat_turn ev q w) = disk w'" if "sid = session_id_v1"
  proof -
    let ?w = "chat_turn ev q w"
    have c: "?w = py_print ''Please try your question again or check your API key/network connection.''
            (py_print (''An error occurred during chat: '' @ msg e) w')"
      using assms that by (simp add: chat_turn_def)
    have "store ?w session_id_v1 = Some r" and "objs ?w = objs w'" and "disk ?w = disk w'"
      using st that by (simp_all add: c py_print_frame)
    then show ?thesis using transcript_cached st that by simp
  qed
  with t d same again show ?thesis by auto
qed

theorem failed_turn_keeps_history_witness:
  "fst (conversational_rag_chain ev_down session_id_v1 ''why'' world1) = Inl (Exn RuntimeError ''503'')
   \<and> store world1 session_id_v1 \<noteq> None
   \<and> transcript (chat_turn ev_down ''why'' world1) session_id_v1
       = [HumanMessage (Text ''hi''), AIMessage (Text ''hello'')]
   \<and> disk (chat_turn ev_down ''why'' world1) = Map.empty"
proof -
  have c: "conversational_rag_chain ev_down session_id_v1 ''why'' world1
             = (Inl (Exn RuntimeError ''503''),
                snd (conversational_rag_chain ev_down session_id_v1 ''why'' world1))"
    by (simp add: conversational_rag_chain_def get_session_history_def full_rag_chain_def
          contextual_prompt_def dynamic_retrieval_def world1_def world0_def ev_down_def ev_ok_def)
  have t: "transcript world1 session_id_v1 = greeting"
    by (simp add: transcript_def get_session_history_def world1_def world0_def)
  have s: "store world1 session_id_v1 \<noteq> None" by (simp add: world1_def)
  have d: "disk world1 = Map.empty" by (simp add: world1_def world0_def)
  from failed_turn_keeps_history [OF c] t s d show ?thesis
    by (simp add: c [THEN arg_cong, of fst] greeting_def)
qed

text \<open>
  Claim C7. Whenever the retriever in the holder returns chunks for the question, the
  prompt handed to the language model has as its system message the fixed instruction
  followed by the texts of these chunks in the order returned, a blank line between
  one and the next; this is the prompt the chain builds, the one the language model is
  called with, and the one a turn of a session calls it with, together with the
  transcript of the session. When the holder has the dummy retriever, the context is
  the empty string.
\<close>

lemma str_join_cases:
  "str_join sep ts = (case ts of [] \<Rightarrow> [] | t # us \<Rightarrow> t @ concat (map (\<lambda>u. sep @ u) us))"
  by (induction sep ts rule: str_join.induct) simp_all

lemma format_docs_joined: "format_docs docs = blank_line_joined (map page_content docs)"
  by (cases docs) (simp_all add: format_docs_def str_join_cases)

theorem context_is_joined_chunks:
  "(invoke (holder w) q = Inr docs \<longrightarrow>
      contextual_prompt w h q
        = Inr (SystemPrompt (system_instruction @ blank_line_joined (map page_content docs))
                 # map HistoryMessage h @ [HumanPrompt q])
      \<and> full_rag_chain ev w h q
        = llm ev (SystemPrompt (system_instruction @ blank_line_joined (map page_content docs))
                    # map HistoryMessage h @ [HumanPrompt q])
      \<and> fst (conversational_rag_chain ev sid q w)
        = llm ev (SystemPrompt (system_instruction @ blank_line_joined (map page_content docs))
                    # map HistoryMessage (transcript w sid) @ [HumanPrompt q]))
   \<and> (holder w = DummyRetriever \<longrightarrow>
        dynamic_retrieval w q = Inr []
        \<and> fst (conversational_rag_chain ev sid q w)
          = llm ev (SystemPrompt system_instruction
                      # map HistoryMessage (transcript w sid) @ [HumanPrompt q]))"
proof -
  obtain r w1 where g: "get_session_history sid w = (r, w1)" by (cases "get_session_history sid w")
  note f = get_session_history_result [OF g]
  have p: "contextual_prompt w' h' q
        = Inr (SystemPrompt (system_instruction @ blank_line_joined (map page_content ds))
                 # map HistoryMessage h' @ [HumanPrompt q])"
    if "invoke (holder w') q = Inr ds" for w' h' ds
    using that by (simp add: contextual_prompt_def dynamic_retrieval_def prompt_def format_docs_joined)
  have c: "fst (conversational_rag_chain ev sid q w) = full_rag_chain ev w1 (transcript w sid) q"
    using g f(2) by (simp add: conversational_rag_chain_def split: sum.splits)
  have a: "fst (conversational_rag_chain ev sid q w)
        = llm ev (SystemPrompt (system_instruction @ blank_line_joined (map page_content ds))
                    # map HistoryMessage (transcript w sid) @ [HumanPrompt q])"
    if "invoke (holder w) q = Inr ds" for ds
    using that p [of w1 ds "transcript w sid"] f(4) c by (simp add: full_rag_chain_def)
  have d: "holder w = DummyRetriever \<Longrightarrow> invoke (holder w) q = Inr []" by simp
  have dr: "holder w = DummyRetriever \<Longrightarrow> dynamic_retrieval w q = Inr []"
    by (simp add: dynamic_retrieval_def format_docs_def)
  show ?thesis using p [of w docs h] a [of docs] a [OF d] dr
    by (auto simp: full_rag_chain_def)
qed

theorem context_is_joined_chunks_witness:
  "invoke (holder grounded_world) ''q'' = Inr [doc1, doc2]
   \<and> contextual_prompt grounded_world [] ''q''
       = Inr [SystemPrompt (system_instruction @ ''alpha\<newline>\<newline>beta''), HumanPrompt ''q'']
   \<and> holder world1 = DummyRetriever
   \<and> dynamic_retrieval world1 ''q'' = Inr []"
proof -
  have i: "invoke (holder grounded_world) ''q'' = Inr [doc1, doc2]"
    by (simp add: grounded_world_def)
  have h: "holder world1 = DummyRetriever" by (simp add: world1_def world0_def)
  from context_is_joined_chunks [of grounded_world "''q''" "[doc1, doc2]" "[]" ev_ok session_id_v1]
    context_is_joined_chunks [of world1 "''q''" "[]" "[]" ev_ok session_id_v1] i h
  show ?thesis by (simp add: doc1_def doc2_def)
qed

section \<open>Loading a session file\<close>

lemma getitem_field_Some: "field e k = Some v \<Longrightarrow> getitem e k = Inr v"
  by (cases e) (simp_all add: field_def)

lemma getitem_field_None: "field e k = None \<Longrightarrow> \<exists>x. getitem e k = Inl x"
  by (cases e) (simp_all add: field_def)

lemma blocks_of_all: "list_all is_block js \<Longrightarrow> \<exists>bs. blocks_of js = Some bs \<and> map block_json bs = js"
proof (induction js)
  case Nil
  show ?case by simp
next
  case (Cons j js)
  then obtain bs where "blocks_of js = Some bs" "map block_json bs = js" by auto
  with Cons.prems show ?case by (cases j) simp_all
qed

lemma blocks_of_not_all: "\<not> list_all is_block js \<Longrightarrow> blocks_of js = None"
proof (induction js)
  case Nil
  then show ?case by simp
next
  case (Cons j js)
  then show ?case by (cases j) (auto split: option.splits)
qed

lemma validate_content_ok:
  "is_message_content c \<Longrightarrow> \<exists>k. validate_content c = Inr k \<and> content_json k = c"
proof (cases c)
  case (JArr js)
  assume "is_message_content c"
  with JArr have "list_all is_block js" by simp
  from blocks_of_all [OF this] JArr show ?thesis by auto
qed simp_all

lemma validate_content_bad:
  "\<not> is_message_content c \<Longrightarrow> \<exists>x. validate_content c = Inl x"
  by (cases c) (simp_all add: blocks_of_not_all)

lemma add_entry_chat:
  assumes "well_formed_entry e" and "is_chat_entry e"
  shows "\<exists>m. add_entry e h = Inr (h @ [m]) \<and> message_fields m = entry_fields e"
proof -
  from assms obtain c where c: "field e ''content'' = Some c" and ok: "is_message_content c"
    by (auto simp: well_formed_entry_def split: option.splits)
  from validate_content_ok [OF ok] obtain k where k: "validate_content c = Inr k" "content_json k = c"
    by blast
  from assms(2) consider "field e ''type'' = Some (JStr ''human'')" | "field e ''type'' = Some (JStr ''ai'')"
    by (auto simp: is_chat_entry_def)
  then show ?thesis
  proof cases
    case 1
    then have "add_entry e h = Inr (h @ [HumanMessage k])"
      by (simp add: add_entry_def getitem_field_Some c k)
    moreover have "message_fields (HumanMessage k) = entry_fields e"
      by (simp add: message_fields_def entry_fields_def 1 c k)
    ultimately show ?thesis by blast
  next
    case 2
    then have "add_entry e h = Inr (h @ [AIMessage k])"
      by (simp add: add_entry_def getitem_field_Some c k)
    moreover have "message_fields (AIMessage k) = entry_fields e"
      by (simp add: message_fields_def entry_fields_def 2 c k)
    ultimately show ?thesis by blast
  qed
qed

lemma add_entry_skip:
  assumes "well_formed_entry e" and "\<not> is_chat_entry e"
  shows "add_entry e h = Inr h"
proof -
  from assms(1) obtain t where t: "field e ''type'' = Some t"
    by (auto simp: well_formed_entry_def)
  with assms(2) have "t \<noteq> JStr ''human''" "t \<noteq> JStr ''ai''" by (auto simp: is_chat_entry_def)
  then show ?thesis by (simp add: add_entry_def getitem_field_Some [OF t])
qed

lemma add_entry_bad:
  assumes "\<not> well_formed_entry e"
  shows "\<exists>x. add_entry e h = Inl x"
proof (cases "field e ''type''")
  case None
  from getitem_field_None [OF this] show ?thesis by (auto simp: add_entry_def)
next
  case (Some t)
  with assms have chat: "t = JStr ''human'' \<or> t = JStr ''ai''"
    and bad: "field e ''content'' = None \<or> (\<exists>c. field e ''content'' = Some c \<and> \<not> is_message_content c)"
    by (auto simp: well_formed_entry_def is_chat_entry_def split: option.splits)
  from bad show ?thesis
  proof
    assume "field e ''content'' = None"
    from getitem_field_None [OF this] chat show ?thesis
      by (auto simp: add_entry_def getitem_field_Some [OF Some])
  next
    assume "\<exists>c. field e ''content'' = Some c \<and> \<not> is_message_content c"
    then obtain c where c: "field e ''content'' = Some c" and n: "\<not> is_message_content c" by blast
    from validate_content_bad [OF n] chat show ?thesis
      by (auto simp: add_entry_def getitem_field_Some [OF Some] getitem_field_Some [OF c])
  qed
qed

lemma replay_prefix:
  "\<exists>ms. fst (replay es h) = h @ ms
        \<and> map message_fields ms = map entry_fields (filter is_chat_entry (takeWhile well_formed_entry es))"
proof (induction es arbitrary: h)
  case Nil
  show ?case by simp
next
  case (Cons e es)
  show ?case
  proof (cases "well_formed_entry e")
    case False
    from add_entry_bad [OF this, of h] show ?thesis by (auto simp: False)
  next
    case wf: True
    show ?thesis
    proof (cases "is_chat_entry e")
      case True
      from add_entry_chat [OF wf True, of h] obtain m
        where m: "add_entry e h = Inr (h @ [m])" "message_fields m = entry_fields e" by blast
      from Cons.IH [of "h @ [m]"] obtain ms where
        "fst (replay es (h @ [m])) = (h @ [m]) @ ms"
        "map message_fields ms = map entry_fields (filter is_chat_entry (takeWhile well_formed_entry es))"
        by blast
      then have "fst (replay (e # es) h) = h @ (m # ms)
          \<and> map message_fields (m # ms)
              = map entry_fields (filter is_chat_entry (takeWhile well_formed_entry (e # es)))"
        using m wf True by simp
      then show ?thesis by blast
    next
      case False
      from Cons.IH [of h] show ?thesis
        by (simp add: add_entry_skip [OF wf False] wf False)
    qed
  qed
qed

lemma load_array:
  "map message_fields (fst (load_history (Json (JArr es))))
     = map entry_fields (filter is_chat_entry (takeWhile well_formed_entry es))"
  using replay_prefix [of es "[]"] by auto

lemma replay_strings: "\<forall>x\<in>set items. \<exists>s. x = JStr s \<Longrightarrow> fst (replay items []) = []"
  by (cases items) (auto simp: add_entry_def)

lemma load_not_array: "\<forall>es. v \<noteq> JArr es \<Longrightarrow> fst (load_history (Json v)) = []"
  by (cases v) (auto simp: replay_strings)

text \<open>
  Claim C4, as the code has it. Let a session have no entry in the store and a file on
  disk. If the file cannot be opened, is not JSON, or parses to a value that is not an
  array, the transcript the first call yields is empty. If it parses to an array, the
  transcript holds, in file order, the chat entries that come before the first entry
  that is not well formed, each with its role and content: the messages appended before
  the exception stay. The call returns in every case.
\<close>

theorem malformed_file_keeps_prefix:
  assumes "store w sid = None" and "disk w (history_file sid) = Some f"
  shows "(f = Unreadable \<or> f = NotJson \<or> (\<exists>v. f = Json v \<and> (\<forall>es. v \<noteq> JArr es))
            \<longrightarrow> transcript w sid = [])
       \<and> (\<forall>es. f = Json (JArr es) \<longrightarrow>
            map message_fields (transcript w sid)
              = map entry_fields (filter is_chat_entry (takeWhile well_formed_entry es)))"
proof -
  have t: "transcript w sid = fst (load_history f)"
    using assms by (simp add: transcript_first)
  have "f = Unreadable \<or> f = NotJson \<or> (\<exists>v. f = Json v \<and> (\<forall>es. v \<noteq> JArr es))
          \<longrightarrow> fst (load_history f) = []"
    using load_not_array by auto
  moreover have "\<forall>es. f = Json (JArr es) \<longrightarrow>
      map message_fields (fst (load_history f))
        = map entry_fields (filter is_chat_entry (takeWhile well_formed_entry es))"
    using load_array by blast
  ultimately show ?thesis unfolding t by blast
qed

theorem malformed_file_keeps_prefix_witness:
  "store broken_world ''s'' = None
   \<and> map message_fields (transcript broken_world ''s'') = [(Some (JStr ''human''), Some (JStr ''hi''))]
   \<and> store unreadable_world ''s'' = None
   \<and> transcript unreadable_world ''s'' = []"
proof -
  have s: "store broken_world ''s'' = None" "store unreadable_world ''s'' = None"
    by (simp_all add: broken_world_def unreadable_world_def world0_def)
  have d: "disk broken_world (history_file ''s'') = Some (Json (JArr broken_entries))"
    "disk unreadable_world (history_file ''s'') = Some Unreadable"
    by (simp_all add: broken_world_def unreadable_world_def world0_def)
  have p: "map entry_fields (filter is_chat_entry (takeWhile well_formed_entry broken_entries))
             = [(Some (JStr ''human''), Some (JStr ''hi''))]"
    by (simp add: broken_entries_def entry_def well_formed_entry_def is_chat_entry_def field_def
          entry_fields_def)
  from malformed_file_keeps_prefix [OF s(1) d(1)] malformed_file_keeps_prefix [OF s(2) d(2)] p s
  show ?thesis by simp
qed

text \<open>
  Claim C4 as stated fails: the second entry of the file lacks its content, and the first
  call yields the message of the first entry, not an empty transcript.
\<close>

theorem malformed_file_counterexample:
  "store broken_world ''s'' = None
   \<and> disk broken_world (history_file ''s'')
       = Some (Json (JArr [entry ''human'' (JStr ''hi''), JObj [(''type'', JStr ''human'')],
                           entry ''ai'' (JStr ''hello'')]))
   \<and> field (JObj [(''type'', JStr ''human'')]) ''content'' = None
   \<and> transcript broken_world ''s'' = [HumanMessage (Text ''hi'')]"
  by (simp add: broken_world_def broken_entries_def world0_def entry_def field_def
        transcript_def get_session_history_def add_entry_def)

text \<open>
  Claim C9, as the code has it. Let a session have no entry in the store and a file that
  parses to an array of objects that each have a type and a content, where the content
  of every chat entry is message content. Then the transcript the first call yields
  holds, in file order, exactly the chat entries, each with its role and content; the
  entries of any other type are skipped.
\<close>

theorem load_keeps_chat_entries:
  assumes "store w sid = None" and "disk w (history_file sid) = Some (Json (JArr es))"
    and "\<forall>e\<in>set es. \<exists>t c. field e ''type'' = Some t \<and> field e ''content'' = Some c
                          \<and> (is_chat_entry e \<longrightarrow> is_message_content c)"
  shows "map message_fields (transcript w sid) = map entry_fields (filter is_chat_entry es)"
proof -
  have "\<forall>e\<in>set es. well_formed_entry e"
    using assms(3) by (auto simp: well_formed_entry_def)
  then have tw: "takeWhile well_formed_entry es = es" by (simp add: takeWhile_eq_all_conv)
  have t: "transcript w sid = fst (load_history (Json (JArr es)))"
    using assms(1,2) by (simp add: transcript_first)
  have "map message_fields (fst (load_history (Json (JArr es))))
          = map entry_fields (filter is_chat_entry es)"
    using load_array [of es] by (simp only: tw)
  then show ?thesis by (simp only: t)
qed

theorem load_keeps_chat_entries_witness:
  "store mixed_world ''s'' = None
   \<and> disk mixed_world (history_file ''s'') = Some (Json (JArr mixed_entries))
   \<and> map message_fields (transcript mixed_world ''s'')
       = [(Some (JStr ''human''), Some (JStr ''hi'')), (Some (JStr ''ai''), Some (JStr ''x''))]"
proof -
  have s: "store mixed_world ''s'' = None" by (simp add: mixed_world_def world0_def)
  have d: "disk mixed_world (history_file ''s'') = Some (Json (JArr mixed_entries))"
    by (simp add: mixed_world_def world0_def)
  have h: "\<forall>e\<in>set mixed_entries. \<exists>t c. field e ''type'' = Some t \<and> field e ''content'' = Some c
                          \<and> (is_chat_entry e \<longrightarrow> is_message_content c)"
    by (simp add: mixed_entries_def entry_def field_def is_chat_entry_def)
  have p: "map entry_fields (filter is_chat_entry mixed_entries)
             = [(Some (JStr ''human''), Some (JStr ''hi'')), (Some (JStr ''ai''), Some (JStr ''x''))]"
    by (simp add: mixed_entries_def entry_def is_chat_entry_def field_def entry_fields_def)
  from load_keeps_chat_entries [OF s d h] p s d show ?thesis by simp
qed

text \<open>
  Claim C9 as stated fails: both entries of the file are objects with a type and a
  content and both are chat entries, but the content of the first is \<^verbatim>\<open>null\<close>, the
  message constructor rejects it, and the first call yields no message at all.
\<close>

theorem load_keeps_chat_entries_counterexample:
  "store null_world ''s'' = None
   \<and> disk null_world (history_file ''s'')
       = Some (Json (JArr [entry ''human'' JNull, entry ''ai'' (JStr ''x'')]))
   \<and> entry_fields (entry ''human'' JNull) = (Some (JStr ''human''), Some JNull)
   \<and> entry_fields (entry ''ai'' (JStr ''x'')) = (Some (JStr ''ai''), Some (JStr ''x''))
   \<and> transcript null_world ''s'' = []"
  by (simp add: null_world_def null_entries_def world0_def entry_def field_def entry_fields_def
        transcript_def get_session_history_def add_entry_def)

section \<open>Ingestion\<close>

lemma on_error_report:
  "\<exists>ls. on_error e p w = w\<lparr>out := out w @ ls\<rparr>
        \<and> report_of ls
            = Some (if cls e = ImportError then DependencyReport
                    else if str_in ''Quota exceeded'' (msg e) then QuotaReport
                    else ProcessingReport)"
proof (cases "cls e = ImportError")
  case True
  let ?ls = "tl (drop (length (out w)) (out (on_import_error e p w)))"
  have ls: "on_import_error e p w = w\<lparr>out := out w @ dependency_line # ?ls\<rparr>"
    and n: "unsupported_line \<notin> set ?ls"
    by (simp_all add: on_import_error_def py_print_def Let_def unsupported_line_def)
  have "unsupported_line \<noteq> dependency_line"
    by (simp add: unsupported_line_def dependency_line_def)
  with n have "report_of (dependency_line # ?ls) = Some DependencyReport"
    by (simp add: report_of_def)
  with ls True show ?thesis by (auto simp: on_error_def)
next
  case False
  let ?first = "processing_line (msg e)"
  have neq: "unsupported_line \<noteq> ?first" "dependency_line \<noteq> ?first" "quota_line \<noteq> ?first"
    by (simp_all add: unsupported_line_def dependency_line_def quota_line_def processing_line_def)
  have st: "startswith ?first (processing_line [])"
    by (simp add: startswith_def processing_line_def)
  show ?thesis
  proof (cases "str_in ''Quota exceeded'' (msg e)")
    case True
    let ?ls = "[?first, quota_line,
       ''NOTE: The document failed to load because the Gemini API quota for embeddings was exceeded.'',
       ''This often happens when processing many chunks (like a large CSV/PDF).'',
       ''Please wait for your quota to reset or check your API usage/plan.'']"
    have o: "on_exception e w = w\<lparr>out := out w @ ?ls\<rparr>"
      using True by (simp add: on_exception_def py_print_def Let_def)
    have "report_of ?ls = Some QuotaReport"
      using neq by (simp add: report_of_def unsupported_line_def dependency_line_def quota_line_def)
    with o True False show ?thesis by (auto simp: on_error_def)
  next
    case nq: False
    have o: "on_exception e w = w\<lparr>out := out w @ [?first]\<rparr>"
      using nq by (simp add: on_exception_def py_print_def Let_def)
    have "report_of [?first] = Some ProcessingReport"
      using neq st by (simp add: report_of_def)
    with o nq False show ?thesis by (auto simp: on_error_def)
  qed
qed

lemma report_of_skip:
  "neutral_line l \<Longrightarrow> report_of (l # ls) = report_of ls"
  by (auto simp: report_of_def neutral_line_def)

lemma neutral_loading: "neutral_line (''Loading document from: '' @ p @ ''...'')"
  by (simp add: neutral_line_def unsupported_line_def dependency_line_def quota_line_def
        processing_line_def startswith_def)

lemma neutral_split: "neutral_line (''Document split into '' @ n @ '' chunks.'')"
  by (simp add: neutral_line_def unsupported_line_def dependency_line_def quota_line_def
        processing_line_def startswith_def)

text \<open>What a failed ingestion returns and prints, for each way it can fail.\<close>

lemma ingest_unsupported:
  assumes "select_loader p = None"
  shows "fst (load_and_process_document ev p w) = None"
    and "report_of (printed w (snd (load_and_process_document ev p w))) = Some UnsupportedReport"
proof -
  have "report_of [''Loading document from: '' @ p @ ''...'', unsupported_line]
          = Some UnsupportedReport"
    by (simp add: report_of_def)
  with assms show "fst (load_and_process_document ev p w) = None"
    and "report_of (printed w (snd (load_and_process_document ev p w))) = Some UnsupportedReport"
    by (simp_all add: load_and_process_document_def py_print_def printed_def)
qed

lemma ingest_raised:
  assumes "raised ev p = Some e"
  shows "fst (load_and_process_document ev p w) = None"
    and "report_of (printed w (snd (load_and_process_document ev p w)))
           = Some (if cls e = ImportError then DependencyReport
                   else if str_in ''Quota exceeded'' (msg e) then QuotaReport
                   else ProcessingReport)"
proof -
  let ?loading = "''Loading document from: '' @ p @ ''...''"
  let ?kind = "if cls e = ImportError then DependencyReport
               else if str_in ''Quota exceeded'' (msg e) then QuotaReport
               else ProcessingReport"
  from assms obtain l where l: "select_loader p = Some l"
    by (auto simp: raised_def split: option.splits)
  have "fst (load_and_process_document ev p w) = None
        \<and> report_of (printed w (snd (load_and_process_document ev p w))) = Some ?kind"
  proof (cases "load_and_split ev l p")
    case (Inl e')
    with assms l have e': "e' = e" by (simp add: raised_def)
    obtain ls where ls: "on_error e p (py_print ?loading w)
                           = (py_print ?loading w)\<lparr>out := out (py_print ?loading w) @ ls\<rparr>"
      and r: "report_of ls = Some ?kind"
      using on_error_report by blast
    have res: "load_and_process_document ev p w = (None, w\<lparr>out := out w @ (?loading # ls)\<rparr>)"
      using l Inl e' ls by (simp add: load_and_process_document_def py_print_def)
    have "report_of (?loading # ls) = report_of ls"
      by (rule report_of_skip [OF neutral_loading])
    with r res show ?thesis by (simp add: printed_def)
  next
    case (Inr splits)
    let ?split = "''Document split into '' @ show_nat (length splits) @ '' chunks.''"
    let ?w1 = "py_print ?split (py_print ?loading w)"
    from assms l Inr have b: "build_index ev splits = Inl e"
      by (auto simp: raised_def split: sum.splits)
    obtain ls where ls: "on_error e p ?w1 = ?w1\<lparr>out := out ?w1 @ ls\<rparr>"
      and r: "report_of ls = Some ?kind"
      using on_error_report by blast
    have res: "load_and_process_document ev p w
                 = (None, w\<lparr>out := out w @ (?loading # ?split # ls)\<rparr>)"
      using l Inr b ls by (simp add: load_and_process_document_def py_print_def)
    have "report_of (?loading # ?split # ls) = report_of ls"
      by (simp only: report_of_skip [OF neutral_loading] report_of_skip [OF neutral_split])
    with r res show ?thesis by (simp add: printed_def)
  qed
  then show "fst (load_and_process_document ev p w) = None"
    and "report_of (printed w (snd (load_and_process_document ev p w))) = Some ?kind"
    by simp_all
qed

lemma ingest_succeeds:
  assumes "select_loader p \<noteq> None" and "raised ev p = None"
  shows "fst (load_and_process_document ev p w) \<noteq> None"
  using assms
  by (auto simp: load_and_process_document_def raised_def Let_def split: option.splits sum.splits)

lemma ingest_frame:
  "holder (snd (load_and_process_document ev p w)) = holder w
   \<and> store (snd (load_and_process_document ev p w)) = store w
   \<and> objs (snd (load_and_process_document ev p w)) = objs w
   \<and> disk (snd (load_and_process_document ev p w)) = disk w"
  by (simp add: load_and_process_document_def on_error_def on_import_error_def on_exception_def
        py_print_def Let_def split: option.splits sum.splits)

text \<open>
  Claim C5, as the code has it. \<^verbatim>\<open>load_and_process_document\<close> always returns (every
  exception a service raises is caught), and it returns \<^verbatim>\<open>None\<close> exactly when the path
  selects no loader or a service raises; the value returned is the same \<^verbatim>\<open>None\<close>
  whichever it is. Failures are told apart only by the diagnostic printed, which can be
  read back from the printed lines alone and is chosen by the class and the text of the
  exception, not by the step that raised it: the unsupported-format error when no loader
  is selected; the dependency-missing report for an \<^verbatim>\<open>ImportError\<close>; the quota report for
  any other exception whose text contains \<^verbatim>\<open>Quota exceeded\<close>; the bare processing-error
  line for any other exception. The holder, the store, the history objects and the disk
  are as before the call.
\<close>

theorem ingest_failures_reported:
  "(fst (load_and_process_document ev p w) = None
      \<longleftrightarrow> select_loader p = None \<or> raised ev p \<noteq> None)
   \<and> (select_loader p = None \<longrightarrow>
        report_of (printed w (snd (load_and_process_document ev p w))) = Some UnsupportedReport)
   \<and> (\<forall>e. raised ev p = Some e \<and> cls e = ImportError \<longrightarrow>
        report_of (printed w (snd (load_and_process_document ev p w))) = Some DependencyReport)
   \<and> (\<forall>e. raised ev p = Some e \<and> cls e \<noteq> ImportError \<and> str_in ''Quota exceeded'' (msg e) \<longrightarrow>
        report_of (printed w (snd (load_and_process_document ev p w))) = Some QuotaReport)
   \<and> (\<forall>e. raised ev p = Some e \<and> cls e \<noteq> ImportError \<and> \<not> str_in ''Quota exceeded'' (msg e) \<longrightarrow>
        report_of (printed w (snd (load_and_process_document ev p w))) = Some ProcessingReport)
   \<and> holder (snd (load_and_process_document ev p w)) = holder w
   \<and> store (snd (load_and_process_document ev p w)) = store w
   \<and> objs (snd (load_and_process_document ev p w)) = objs w
   \<and> disk (snd (load_and_process_document ev p w)) = disk w"
proof -
  have none: "fst (load_and_process_document ev p w) = None
      \<longleftrightarrow> select_loader p = None \<or> raised ev p \<noteq> None"
    using ingest_unsupported(1) [of p ev w] ingest_raised(1) [of ev p _ w]
      ingest_succeeds [of p ev w]
    by blast
  have u: "select_loader p = None \<longrightarrow>
        report_of (printed w (snd (load_and_process_document ev p w))) = Some UnsupportedReport"
    using ingest_unsupported(2) by blast
  have r: "report_of (printed w (snd (load_and_process_document ev p w)))
           = Some (if cls e = ImportError then DependencyReport
                   else if str_in ''Quota exceeded'' (msg e) then QuotaReport
                   else ProcessingReport)" if "raised ev p = Some e" for e
    using that by (rule ingest_raised(2))
  have d: "\<forall>e. raised ev p = Some e \<and> cls e = ImportError \<longrightarrow>
        report_of (printed w (snd (load_and_process_document ev p w))) = Some DependencyReport"
    using r by simp
  have q: "\<forall>e. raised ev p = Some e \<and> cls e \<noteq> ImportError \<and> str_in ''Quota exceeded'' (msg e) \<longrightarrow>
        report_of (printed w (snd (load_and_process_document ev p w))) = Some QuotaReport"
    using r by simp
  have g: "\<forall>e. raised ev p = Some e \<and> cls e \<noteq> ImportError \<and> \<not> str_in ''Quota exceeded'' (msg e) \<longrightarrow>
        report_of (printed w (snd (load_and_process_document ev p w))) = Some ProcessingReport"
    using r by simp
  from none u d q g ingest_frame [of ev p w] show ?thesis by blast
qed

lemma example_loaders:
  "select_loader ''report.xlsx'' = None"
  "select_loader ''a.pdf'' = Some PyPDFLoader"
  "select_loader ''notes.txt'' = Some TextLoader"
  by (simp_all add: select_loader_def endswith_def)

lemma example_raised:
  "raised ev_noparser ''a.pdf'' = Some (Exn ImportError ''No module named pypdf'')"
  "raised ev_noindex ''a.pdf'' = Some (Exn ImportError ''No module named faiss'')"
  "raised ev_quota ''a.pdf'' = Some (Exn RuntimeError ''429 Quota exceeded for embeddings'')"
  "raised ev_limit ''a.pdf'' = Some (Exn RuntimeError ''429 You exceeded your current quota'')"
  "raised ev_badfile ''notes.txt'' = Some (Exn RuntimeError ''cannot read the file'')"
  by (simp_all add: raised_def example_loaders ev_noparser_def ev_noindex_def ev_quota_def
        ev_limit_def ev_badfile_def ev_ok_def)

lemma example_texts:
  "str_in ''Quota exceeded'' ''429 Quota exceeded for embeddings''"
  "\<not> str_in ''Quota exceeded'' ''429 You exceeded your current quota''"
  "\<not> str_in ''Quota exceeded'' ''cannot read the file''"
  by code_simp+

theorem ingest_failures_reported_witness:
  "fst (load_and_process_document ev_ok ''report.xlsx'' world0) = None
   \<and> report_of (printed world0 (snd (load_and_process_document ev_ok ''report.xlsx'' world0)))
       = Some UnsupportedReport
   \<and> report_of (printed world0 (snd (load_and_process_document ev_noparser ''a.pdf'' world0)))
       = Some DependencyReport
   \<and> report_of (printed world0 (snd (load_and_process_document ev_noindex ''a.pdf'' world0)))
       = Some DependencyReport
   \<and> report_of (printed world0 (snd (load_and_process_document ev_quota ''a.pdf'' world0)))
       = Some QuotaReport
   \<and> report_of (printed world0 (snd (load_and_process_document ev_limit ''a.pdf'' world0)))
       = Some ProcessingReport
   \<and> report_of (printed world0 (snd (load_and_process_document ev_badfile ''notes.txt'' world0)))
       = Some ProcessingReport"
proof -
  have c: "cls (Exn ImportError m) = ImportError" "cls (Exn RuntimeError m) \<noteq> ImportError" for m
    by simp_all
  have u: "fst (load_and_process_document ev_ok ''report.xlsx'' world0) = None
      \<and> report_of (printed world0 (snd (load_and_process_document ev_ok ''report.xlsx'' world0)))
          = Some UnsupportedReport"
    using ingest_failures_reported [of ev_ok "''report.xlsx''" world0] example_loaders(1)
    by blast
  have d1: "report_of (printed world0 (snd (load_and_process_document ev_noparser ''a.pdf'' world0)))
       = Some DependencyReport"
    using ingest_failures_reported [of ev_noparser "''a.pdf''" world0] example_raised(1) c(1)
    by blast
  have d2: "report_of (printed world0 (snd (load_and_process_document ev_noindex ''a.pdf'' world0)))
       = Some DependencyReport"
    using ingest_failures_reported [of ev_noindex "''a.pdf''" world0] example_raised(2) c(1)
    by blast
  have m: "msg (Exn k t) = t" for k t by simp
  have q: "report_of (printed world0 (snd (load_and_process_document ev_quota ''a.pdf'' world0)))
       = Some QuotaReport"
    using ingest_failures_reported [of ev_quota "''a.pdf''" world0] example_raised(3) c(2)
      example_texts(1) m
    by metis
  have g1: "report_of (printed world0 (snd (load_and_process_document ev_limit ''a.pdf'' world0)))
       = Some ProcessingReport"
    using ingest_failures_reported [of ev_limit "''a.pdf''" world0] example_raised(4) c(2)
      example_texts(2) m
    by metis
  have g2: "report_of (printed world0 (snd (load_and_process_document ev_badfile ''notes.txt'' world0)))
       = Some ProcessingReport"
    using ingest_failures_reported [of ev_badfile "''notes.txt''" world0] example_raised(5) c(2)
      example_texts(3) m
    by metis
  from u d1 d2 q g1 g2 show ?thesis by blast
qed

text \<open>
  Claim C5 as stated fails: for a path no loader is selected for and for an embedding
  step rejected for quota the call returns the same value, so the value returned
  carries no tag that tells the two failures apart.
\<close>

theorem ingest_failure_untagged_counterexample:
  "select_loader ''report.xlsx'' = None
   \<and> select_loader ''a.pdf'' = Some PyPDFLoader
   \<and> load_and_split ev_quota PyPDFLoader ''a.pdf'' = Inr [doc1, doc2]
   \<and> build_index ev_quota [doc1, doc2] = Inl (Exn RuntimeError ''429 Quota exceeded for embeddings'')
   \<and> fst (load_and_process_document ev_ok ''report.xlsx'' world0) = None
   \<and> fst (load_and_process_document ev_quota ''a.pdf'' world0) = None"
  by (simp add: select_loader_def endswith_def ev_quota_def ev_ok_def
        load_and_process_document_def py_print_def on_error_def on_exception_def)

lemma last_occurrence:
  assumes "x \<in> set xs"
  shows "\<exists>ys. xs = ys @ x # rev (takeWhile (\<lambda>c. c \<noteq> x) (rev xs))"
proof -
  let ?P = "\<lambda>c. c \<noteq> x"
  have ne: "dropWhile ?P (rev xs) \<noteq> []"
    using assms by (auto simp: dropWhile_eq_Nil_conv)
  then have "\<not> ?P (hd (dropWhile ?P (rev xs)))" by (rule hd_dropWhile)
  with ne obtain zs where zs: "dropWhile ?P (rev xs) = x # zs"
    by (cases "dropWhile ?P (rev xs)") auto
  have "rev xs = takeWhile ?P (rev xs) @ dropWhile ?P (rev xs)" by simp
  then have "rev xs = takeWhile ?P (rev xs) @ x # zs" by (simp only: zs)
  then have "rev (rev xs) = rev (takeWhile ?P (rev xs) @ x # zs)" by (rule arg_cong)
  then have "xs = rev zs @ x # rev (takeWhile ?P (rev xs))" by simp
  then show ?thesis by blast
qed

lemma endswith_append: "endswith (q @ e) e"
  by (simp add: endswith_def)

lemma extension_endswith:
  assumes "extension p \<noteq> []"
  shows "endswith p (extension p)"
proof -
  let ?stem = "dropWhile (\<lambda>c. c = CHR ''.'') (basename p)"
  from assms have dot: "CHR ''.'' \<in> set ?stem"
    and ext: "extension p = CHR ''.'' # rev (takeWhile (\<lambda>c. c \<noteq> CHR ''.'') (rev ?stem))"
    by (auto simp: extension_def Let_def split: if_splits)
  from last_occurrence [OF dot] ext obtain ys where ys: "?stem = ys @ extension p" by auto
  have "basename p = takeWhile (\<lambda>c. c = CHR ''.'') (basename p) @ ?stem" by simp
  moreover have "p = rev (dropWhile (\<lambda>c. c \<noteq> CHR ''/'') (rev p)) @ basename p"
    unfolding basename_def by (metis rev_append rev_rev_ident takeWhile_dropWhile_id)
  ultimately have "p = (rev (dropWhile (\<lambda>c. c \<noteq> CHR ''/'') (rev p))
                        @ takeWhile (\<lambda>c. c = CHR ''.'') (basename p) @ ys) @ extension p"
    using ys by (metis append.assoc)
  then show ?thesis by (metis endswith_append)
qed

text \<open>
  Claim C6, as the code has it. For a path that ends in none of \<^verbatim>\<open>.txt\<close>, \<^verbatim>\<open>.pdf\<close>,
  \<^verbatim>\<open>.docx\<close>, \<^verbatim>\<open>.csv\<close> (its extension is then none of the four),
  \<^verbatim>\<open>load_and_process_document\<close> prints the line that reports the unsupported format and
  returns \<^verbatim>\<open>None\<close>, the value it returns for every failure, whatever the services are
  (none is called); the holder, the disk, the store and the history objects are as
  before the call.
\<close>

theorem unsupported_extension_touches_nothing:
  assumes "\<not> endswith p ''.txt''" and "\<not> endswith p ''.pdf''"
    and "\<not> endswith p ''.docx''" and "\<not> endswith p ''.csv''"
  shows "extension p \<notin> set [''.txt'', ''.pdf'', ''.docx'', ''.csv'']
       \<and> load_and_process_document ev p w
           = (None, w\<lparr>out := out w @ [''Loading document from: '' @ p @ ''...'', unsupported_line]\<rparr>)
       \<and> holder (snd (load_and_process_document ev p w)) = holder w
       \<and> disk (snd (load_and_process_document ev p w)) = disk w
       \<and> store (snd (load_and_process_document ev p w)) = store w
       \<and> objs (snd (load_and_process_document ev p w)) = objs w"
proof -
  have "extension p \<notin> set [''.txt'', ''.pdf'', ''.docx'', ''.csv'']"
  proof
    assume "extension p \<in> set [''.txt'', ''.pdf'', ''.docx'', ''.csv'']"
    then have m: "extension p = ''.txt'' \<or> extension p = ''.pdf''
                  \<or> extension p = ''.docx'' \<or> extension p = ''.csv''" by simp
    then have "extension p \<noteq> []" by auto
    then have "endswith p (extension p)" by (rule extension_endswith)
    with m assms show False by auto
  qed
  moreover have "load_and_process_document ev p w
           = (None, w\<lparr>out := out w @ [''Loading document from: '' @ p @ ''...'', unsupported_line]\<rparr>)"
    using assms by (simp add: load_and_process_document_def select_loader_def py_print_def)
  ultimately show ?thesis by simp
qed

theorem unsupported_extension_touches_nothing_witness:
  "\<not> endswith ''report.xlsx'' ''.txt'' \<and> \<not> endswith ''report.xlsx'' ''.pdf''
   \<and> \<not> endswith ''report.xlsx'' ''.docx'' \<and> \<not> endswith ''report.xlsx'' ''.csv''
   \<and> fst (load_and_process_document ev_ok ''report.xlsx'' grounded_world) = None
   \<and> holder (snd (load_and_process_document ev_ok ''report.xlsx'' grounded_world)) = holder grounded_world
   \<and> disk (snd (load_and_process_document ev_ok ''report.xlsx'' grounded_world)) = disk grounded_world"
proof -
  have e: "\<not> endswith ''report.xlsx'' ''.txt''" "\<not> endswith ''report.xlsx'' ''.pdf''"
    "\<not> endswith ''report.xlsx'' ''.docx''" "\<not> endswith ''report.xlsx'' ''.csv''"
    by (simp_all add: endswith_def)
  from unsupported_extension_touches_nothing [OF e, of ev_ok grounded_world] e show ?thesis by simp
qed

text \<open>
  Claim C6 as stated fails: the path \<^verbatim>\<open>docs/.pdf\<close> has no extension, so its extension is
  not one of the four, yet it ends in \<^verbatim>\<open>.pdf\<close>: the PDF loader is selected, the services
  are called, and the call returns a retriever instead of a failure.
\<close>

theorem unsupported_extension_counterexample:
  "extension ''docs/.pdf'' = []
   \<and> select_loader ''docs/.pdf'' = Some PyPDFLoader
   \<and> fst (load_and_process_document ev_ok ''docs/.pdf'' world0)
       = Some (VectorStoreRetriever (\<lambda>q. Inr [doc1, doc2]))"
proof -
  have "extension ''docs/.pdf'' = []" by code_simp
  moreover have s: "select_loader ''docs/.pdf'' = Some PyPDFLoader"
    by (simp add: select_loader_def endswith_def)
  moreover have "fst (load_and_process_document ev_ok ''docs/.pdf'' world0)
       = Some (VectorStoreRetriever (\<lambda>q. Inr [doc1, doc2]))"
    by (simp add: load_and_process_document_def s ev_ok_def py_print_def)
  ultimately show ?thesis by simp
qed

section \<open>The load command\<close>

lemma load_not_quit:
  "startswith (py_lower u) ''/load '' \<Longrightarrow> py_lower u \<notin> set [''quit'', ''exit'']"
  by (auto simp: startswith_def)

text \<open>
  Claim C10. Let the input be a \<^verbatim>\<open>/load\<close> command and \<^verbatim>\<open>p\<close> the normalised path it
  names. If \<^verbatim>\<open>p\<close> exists and ingestion returns \<^verbatim>\<open>None\<close>, the holder has the dummy
  retriever afterwards, whatever it had before. If \<^verbatim>\<open>p\<close> does not exist, the round only
  prints that the file was not found: ingestion is not run and the holder has the
  retriever it had.
\<close>

theorem load_command_swaps_retriever:
  assumes "startswith (py_lower user_input) ''/load ''"
    and "p = normpath ev (py_strip (split_last user_input))"
  shows "(disk w p \<noteq> None \<and> fst (load_and_process_document ev p w) = None \<longrightarrow>
            holder (snd (main_step ev user_input w)) = DummyRetriever)
       \<and> (disk w p = None \<longrightarrow>
            snd (main_step ev user_input w)
              = py_print (''File not found at: '' @ p @ ''. Current RAG status remains unchanged.'') w
            \<and> holder (snd (main_step ev user_input w)) = holder w)"
proof -
  have m: "main_step ev user_input w = (Continue, load_command ev p w)"
    using load_not_quit [OF assms(1)] assms by (simp add: main_step_def)
  have "holder (load_command ev p w) = DummyRetriever"
    if "disk w p \<noteq> None" and "fst (load_and_process_document ev p w) = None"
    using that by (cases "load_and_process_document ev p w") (auto simp: load_command_def py_print_def)
  moreover have "load_command ev p w
      = py_print (''File not found at: '' @ p @ ''. Current RAG status remains unchanged.'') w"
    if "disk w p = None"
    using that by (simp add: load_command_def)
  ultimately show ?thesis by (auto simp: m py_print_def)
qed

theorem load_command_swaps_retriever_witness:
  "startswith (py_lower ''/Load report.xlsx'') ''/load ''
   \<and> disk grounded_world ''report.xlsx'' \<noteq> None
   \<and> fst (load_and_process_document ev_ok ''report.xlsx'' grounded_world) = None
   \<and> holder (snd (main_step ev_ok ''/Load report.xlsx'' grounded_world)) = DummyRetriever
   \<and> startswith (py_lower ''/load missing.pdf'') ''/load ''
   \<and> disk grounded_world ''missing.pdf'' = None
   \<and> holder (snd (main_step ev_ok ''/load missing.pdf'' grounded_world)) = holder grounded_world"
proof -
  have s1: "startswith (py_lower ''/Load report.xlsx'') ''/load ''"
    and s2: "startswith (py_lower ''/load missing.pdf'') ''/load ''"
    by code_simp+
  have "py_strip (split_last ''/Load report.xlsx'') = ''report.xlsx''"
    and "py_strip (split_last ''/load missing.pdf'') = ''missing.pdf''"
    by code_simp+
  then have p1: "''report.xlsx'' = normpath ev_ok (py_strip (split_last ''/Load report.xlsx''))"
    and p2: "''missing.pdf'' = normpath ev_ok (py_strip (split_last ''/load missing.pdf''))"
    by (simp_all add: ev_ok_def)
  have d: "disk grounded_world ''report.xlsx'' \<noteq> None" "disk grounded_world ''missing.pdf'' = None"
    by (simp_all add: grounded_world_def)
  have f: "fst (load_and_process_document ev_ok ''report.xlsx'' grounded_world) = None"
    by (simp add: load_and_process_document_def select_loader_def endswith_def)
  from load_command_swaps_retriever [OF s1 p1, of grounded_world]
    load_command_swaps_retriever [OF s2 p2, of grounded_world] s1 s2 d f
  show ?thesis by blast
qed

end
